theory Spec2Isabelle
  imports Complex_Main "HOL-Library.Extended_Nat" "HOL-Library.Option_ord"
    "HOL-Library.Multiset"
begin

section \<open>Numbers\<close>

text \<open>
  JavaScript numbers are modelled by exact arithmetic: delays and clock readings are
  integers (milliseconds), everything derived from them by division is a rational.
  \<open>Math.round x\<close> is \<open>\<lfloor>x + 1/2\<rfloor>\<close> (ties go up).
\<close>

definition Math_round :: "rat \<Rightarrow> int" where
  "Math_round x = \<lfloor>x + 1 / 2\<rfloor>"

section \<open>geoResolver.js: cache freshness\<close>

text \<open>
  A timestamp is the ISO-8601 string written by \<open>new Date().toISOString()\<close>; the model
  keeps the instant it denotes, in milliseconds since the epoch. \<open>None\<close> stands for a
  missing (falsy) timestamp. \<open>now\<close> is the reading of \<open>new Date()\<close> inside the call.
\<close>

definition isCacheValid :: "int \<Rightarrow> int option \<Rightarrow> rat \<Rightarrow> bool" where
  "isCacheValid now timestamp ttlHours =
     (case timestamp of
        None \<Rightarrow> False
      | Some cacheTime \<Rightarrow>
          (let diffHours = of_int (now - cacheTime) / (1000 * 60 * 60)
           in diffHours < ttlHours))"

section \<open>bandwidthTester.js: composite score\<close>



section \<open>ipTester.js: address validation\<close>

text \<open>
  Strings are lists of code units below 256. \<open>split_str sep s\<close> is
  \<open>s.split(sep)\<close> for a one-character separator: it always returns at least one part.
\<close>

fun split_str :: "char \<Rightarrow> string \<Rightarrow> string list" where
  "split_str sep [] = [[]]"
| "split_str sep (c # cs) =
     (if c = sep then [] # split_str sep cs
      else (case split_str sep cs of
              [] \<Rightarrow> [[c]]
            | part # parts \<Rightarrow> (c # part) # parts))"

text \<open>
  \<open>parseInt(s, 10)\<close>: leading white space is skipped, one sign is read, then the longest
  run of decimal digits; no digit at all gives \<open>NaN\<close>, which is \<open>None\<close> here.
\<close>

definition isWhiteSpace :: "char \<Rightarrow> bool" where
  "isWhiteSpace c = (of_char c \<in> {9, 10, 11, 12, 13, 32, 160 :: nat})"

definition isDigit :: "char \<Rightarrow> bool" where
  "isDigit c = (48 \<le> (of_char c :: nat) \<and> (of_char c :: nat) \<le> 57)"

definition digitsValue :: "string \<Rightarrow> nat" where
  "digitsValue ds = foldl (\<lambda>acc c. 10 * acc + (of_char c - 48)) 0 ds"

definition parseInt :: "string \<Rightarrow> int option" where
  "parseInt s =
     (let t = dropWhile isWhiteSpace s;
          neg = (case t of [] \<Rightarrow> False | c # _ \<Rightarrow> c = CHR ''-'');
          u = (case t of [] \<Rightarrow> [] | c # r \<Rightarrow> if c = CHR ''-'' \<or> c = CHR ''+'' then r else t);
          ds = takeWhile isDigit u
      in if ds = [] then None
         else Some (if neg then - int (digitsValue ds) else int (digitsValue ds)))"

definition isValidIp :: "string \<Rightarrow> bool" where
  "isValidIp ip =
     (let parts = split_str (CHR ''.'') ip
      in if length parts \<noteq> 4 then False
         else list_all (\<lambda>part. case parseInt part of
                                  None \<Rightarrow> False
                                | Some num \<Rightarrow> num \<ge> 0 \<and> num \<le> 255) parts)"

section \<open>ipTester.js: the stability pass\<close>

text \<open>
  The network is a parameter. \<open>conn a j\<close> is the outcome of \<open>testTcpConnection\<close> on the
  port at position \<open>j\<close> of \<open>testPorts\<close> during ping attempt \<open>a\<close>: \<open>Some delay\<close> when the
  promise resolves with that delay in milliseconds, \<open>None\<close> when it rejects (timeout or
  connection error). A delay is a difference of two readings of \<open>Date.now()\<close>, a natural
  number. \<open>Infinity\<close> is \<open>\<infinity>\<close> of the extended naturals. \<open>testPorts\<close> is a list of
  integers, so the checks \<open>Array.isArray(testPorts)\<close> and \<open>typeof port !== 'number'\<close>
  hold by typing; \<open>pingCount\<close> is a natural number.
\<close>

type_synonym tcp_outcomes = "nat \<Rightarrow> nat option"

text \<open>
  The objects \<open>{minDelay, avgDelay, stability}\<close>; the result of the stability pass adds
  \<open>isAvailable\<close>, the entries of the candidate lists add \<open>ip\<close>.
\<close>

record delay_stats =
  minDelay :: nat
  avgDelay :: rat
  stability :: rat

record probe_result = delay_stats +
  isAvailable :: bool

definition unavailable :: probe_result where
  "unavailable = \<lparr>minDelay = 0, avgDelay = 0, stability = 0, isAvailable = False\<rparr>"

definition validPort :: "int \<Rightarrow> bool" where
  "validPort port = (\<not> (port < 1 \<or> port > 65535))"

text \<open>
  The loop over \<open>testPorts\<close> of one ping attempt, from position \<open>j\<close> on. The state is
  \<open>(minDelay, allDelays, successCount)\<close>; a delay below 200 is pushed, counted, and ends
  the loop (\<open>break\<close>).
\<close>

fun portLoop :: "tcp_outcomes \<Rightarrow> nat \<Rightarrow> int list \<Rightarrow> enat \<times> nat list \<times> nat
                   \<Rightarrow> enat \<times> nat list \<times> nat" where
  "portLoop conn j [] st = st"
| "portLoop conn j (port # ports) (minD, allDelays, successCount) =
     (if port < 1 \<or> port > 65535 then portLoop conn (Suc j) ports (minD, allDelays, successCount)
      else (case conn j of
              None \<Rightarrow> portLoop conn (Suc j) ports (minD, allDelays, successCount)
            | Some delay \<Rightarrow>
                if delay < 200 then (min minD (enat delay), allDelays @ [delay], Suc successCount)
                else portLoop conn (Suc j) ports (min minD (enat delay), allDelays, successCount)))"

text \<open>One ping attempt: the port loop, then the push of 999 or of the attempt's minimum.\<close>

definition pingAttempt :: "tcp_outcomes \<Rightarrow> int list \<Rightarrow> nat list \<times> nat \<Rightarrow> nat list \<times> nat" where
  "pingAttempt conn testPorts st =
     (case portLoop conn 0 testPorts (\<infinity>, fst st, snd st) of
        (minD, allDelays, successCount) \<Rightarrow>
          (case minD of
             \<infinity> \<Rightarrow> (allDelays @ [999], successCount)
           | enat d \<Rightarrow> (allDelays @ [d], successCount)))"

definition pingLoop :: "(nat \<Rightarrow> tcp_outcomes) \<Rightarrow> int list \<Rightarrow> nat \<Rightarrow> nat list \<times> nat" where
  "pingLoop conn testPorts pingCount =
     fold (\<lambda>attempt st. pingAttempt (conn attempt) testPorts st) [0..<pingCount] ([], 0)"

text \<open>The statistics over \<open>validDelays\<close>, a non-empty list.\<close>

definition average :: "nat list \<Rightarrow> rat" where
  "average ds = of_nat (foldl (\<lambda>sum d. sum + d) 0 ds) / of_nat (length ds)"

definition variance :: "nat list \<Rightarrow> rat" where
  "variance ds =
     foldl (\<lambda>sum d. sum + (of_nat d - average ds) ^ 2) 0 ds / of_nat (length ds)"

definition round2 :: "rat \<Rightarrow> rat" where
  "round2 x = of_int (Math_round (x * 100)) / 100"

definition statistics :: "nat list \<times> nat \<Rightarrow> probe_result" where
  "statistics st =
     (case st of (allDelays, successCount) \<Rightarrow>
        if successCount > 0 then
          (let validDelays = filter (\<lambda>d. d < 999) allDelays
           in if length validDelays > 0 then
                \<lparr>minDelay = Min (set validDelays),
                 avgDelay = round2 (average validDelays),
                 stability = round2 (variance validDelays),
                 isAvailable = True\<rparr>
              else unavailable)
        else unavailable)"

definition testIpAvailability :: "(nat \<Rightarrow> tcp_outcomes) \<Rightarrow> string \<Rightarrow> int list \<Rightarrow> nat
                                   \<Rightarrow> probe_result" where
  "testIpAvailability conn ip testPorts pingCount =
     (if \<not> isValidIp ip then unavailable
      else statistics (pingLoop conn testPorts pingCount))"

text \<open>
  What one ping attempt met on the network: \<open>connects conn testPorts d\<close> says that some
  valid port connects with delay \<open>d\<close>. The attempt fails when no valid port connects, which
  is when \<open>minDelay\<close> is still \<open>Infinity\<close> after the port loop; it is good when some valid
  port connects in less than 200 ms. \<open>connectedAttempts\<close> lists the attempts of a run that
  do not fail.
\<close>

definition connects :: "tcp_outcomes \<Rightarrow> int list \<Rightarrow> nat \<Rightarrow> bool" where
  "connects conn testPorts d =
     (\<exists>j<length testPorts. validPort (testPorts ! j) \<and> conn j = Some d)"

definition attemptFails :: "tcp_outcomes \<Rightarrow> int list \<Rightarrow> bool" where
  "attemptFails conn testPorts =
     (\<forall>j<length testPorts. validPort (testPorts ! j) \<longrightarrow> conn j = None)"

definition attemptGood :: "tcp_outcomes \<Rightarrow> int list \<Rightarrow> bool" where
  "attemptGood conn testPorts =
     (\<exists>j<length testPorts. validPort (testPorts ! j) \<and> (\<exists>d<200. conn j = Some d))"

definition connectedAttempts :: "(nat \<Rightarrow> tcp_outcomes) \<Rightarrow> int list \<Rightarrow> nat \<Rightarrow> nat list" where
  "connectedAttempts conn testPorts pingCount =
     filter (\<lambda>attempt. \<not> attemptFails (conn attempt) testPorts) [0..<pingCount]"

text \<open>The samples and the success count that one attempt adds to the state.\<close>

abbreviation pushed :: "tcp_outcomes \<Rightarrow> int list \<Rightarrow> nat list" where
  "pushed conn testPorts \<equiv> fst (pingAttempt conn testPorts ([], 0))"

abbreviation counted :: "tcp_outcomes \<Rightarrow> int list \<Rightarrow> nat" where
  "counted conn testPorts \<equiv> snd (pingAttempt conn testPorts ([], 0))"

section \<open>bandwidthTester.js: the bandwidth probe\<close>

text \<open>
  The two download endpoints of \<open>testUrls\<close>, in the order they are tried. A download
  either raises (request error, timeout, stream error: \<open>Failed\<close>) or gives a response with
  its HTTP status, the bytes counted by the data handler, the latency
  \<open>startDownload - startTime\<close> and the elapsed \<open>Date.now() - startDownload\<close>, both in
  milliseconds. \<open>http a url\<close> is the outcome of the request of test attempt \<open>a\<close> to \<open>url\<close>;
  \<open>testSizeMb\<close> only enters the URLs, so it is part of \<open>http\<close>. The fallback calls the
  stability pass on port 443 with one attempt, on the network \<open>conn\<close>.
\<close>

datatype endpoint = Cloudflare | Httpbin

definition testUrls :: "endpoint list" where
  "testUrls = [Cloudflare, Httpbin]"

datatype download = Failed | Response int nat nat nat

fun bytesOf :: "download \<Rightarrow> nat" where
  "bytesOf Failed = 0"
| "bytesOf (Response status dataDownloaded latencyMs elapsedMs) = dataDownloaded"

record bandwidth_result =
  isFast :: bool
  bandwidth :: rat
  latency :: nat

text \<open>
  The body of the inner loop; the state is \<open>(bestSpeed, bestLatency)\<close>. \<open>Inl\<close> is the
  early \<open>return\<close> of the function, \<open>Inr\<close> the state after the iteration.
\<close>

definition tryUrl :: "download \<Rightarrow> rat \<times> nat \<Rightarrow> bandwidth_result + rat \<times> nat" where
  "tryUrl response st =
     (case st of (bestSpeed, bestLatency) \<Rightarrow>
        (case response of
           Failed \<Rightarrow> Inr (bestSpeed, bestLatency)
         | Response status dataDownloaded latencyMs elapsedMs \<Rightarrow>
             if status = 200 then
               (let downloadTime = (of_nat elapsedMs :: rat) / 1000
                in if downloadTime > 0 \<and> dataDownloaded > 0 then
                     (let speedMbps = (of_nat dataDownloaded * 8) / (downloadTime * 1000000);
                          bestSpeed' = max bestSpeed speedMbps;
                          bestLatency' = (if bestLatency = 0 then latencyMs
                                          else min bestLatency latencyMs)
                      in if speedMbps > 5
                         then Inl \<lparr>isFast = True, bandwidth = bestSpeed', latency = bestLatency'\<rparr>
                         else Inr (bestSpeed', bestLatency'))
                   else Inr (bestSpeed, bestLatency))
             else Inr (bestSpeed, bestLatency)))"

fun urlLoop :: "(endpoint \<Rightarrow> download) \<Rightarrow> endpoint list \<Rightarrow> rat \<times> nat
                  \<Rightarrow> bandwidth_result + rat \<times> nat" where
  "urlLoop http [] st = Inr st"
| "urlLoop http (url # urls) st =
     (case tryUrl (http url) st of
        Inl result \<Rightarrow> Inl result
      | Inr st' \<Rightarrow> urlLoop http urls st')"

fun attemptLoop :: "(nat \<Rightarrow> endpoint \<Rightarrow> download) \<Rightarrow> nat list \<Rightarrow> rat \<times> nat
                      \<Rightarrow> bandwidth_result + rat \<times> nat" where
  "attemptLoop http [] st = Inr st"
| "attemptLoop http (testAttempt # rest) st =
     (case urlLoop (http testAttempt) testUrls st of
        Inl result \<Rightarrow> Inl result
      | Inr st' \<Rightarrow> attemptLoop http rest st')"

definition testIpBandwidth :: "(nat \<Rightarrow> endpoint \<Rightarrow> download) \<Rightarrow> (nat \<Rightarrow> tcp_outcomes)
                                \<Rightarrow> string \<Rightarrow> nat \<Rightarrow> bandwidth_result" where
  "testIpBandwidth http conn ip testCount =
     (if \<not> isValidIp ip then \<lparr>isFast = False, bandwidth = 0, latency = 0\<rparr>
      else (case attemptLoop http [0..<testCount] (0, 0) of
              Inl result \<Rightarrow> result
            | Inr (bestSpeed, bestLatency) \<Rightarrow>
                if bestSpeed > 0
                then \<lparr>isFast = True, bandwidth = bestSpeed, latency = bestLatency\<rparr>
                else (let r = testIpAvailability conn ip [443] 1
                      in if isAvailable r
                         then \<lparr>isFast = True, bandwidth = 0, latency = minDelay r\<rparr>
                         else \<lparr>isFast = False, bandwidth = 0, latency = 0\<rparr>)))"

section \<open>geoResolver.js: the region cache\<close>

text \<open>
  \<open>regionCache\<close> is an object keyed by address; the model is the list of its entries in
  the order of \<open>Object.entries\<close>, with pairwise distinct keys. An entry is a plain string
  (the old format) or an object \<open>{region, timestamp}\<close>. The ISO-8601 strings of
  \<open>toISOString\<close> compare like the instants they denote, so \<open>localeCompare\<close> on two
  timestamps is the order of the instants; the empty string taken for a missing timestamp
  comes before every timestamp, as \<open>None\<close> comes before every \<open>Some t\<close>.
\<close>

datatype cache_entry = Legacy string | Stamped string int

type_synonym region_cache = "(string \<times> cache_entry) list"

fun timestampOf :: "cache_entry \<Rightarrow> int option" where
  "timestampOf (Legacy code) = None"
| "timestampOf (Stamped region timestamp) = Some timestamp"

definition deleteKey :: "string \<Rightarrow> region_cache \<Rightarrow> region_cache" where
  "deleteKey key regionCache = filter (\<lambda>entry. fst entry \<noteq> key) regionCache"

text \<open>\<open>regionCache[ip] = data\<close>: an existing key keeps its place, a new key goes last.\<close>

fun setKey :: "string \<Rightarrow> cache_entry \<Rightarrow> region_cache \<Rightarrow> region_cache" where
  "setKey key data [] = [(key, data)]"
| "setKey key data ((k, d) # rest) =
     (if k = key then (k, data) # rest else (k, d) # setKey key data rest)"

definition isExpired :: "int \<Rightarrow> rat \<Rightarrow> cache_entry \<Rightarrow> bool" where
  "isExpired currentTime ttlHours data =
     (case data of
        Legacy code \<Rightarrow> False
      | Stamped region cacheTime \<Rightarrow>
          (let diffHours = of_int (currentTime - cacheTime) / (1000 * 60 * 60)
           in diffHours \<ge> ttlHours))"

definition cleanExpiredCache :: "int \<Rightarrow> rat \<Rightarrow> region_cache \<Rightarrow> region_cache" where
  "cleanExpiredCache currentTime ttlHours regionCache =
     (let expiredKeys = map fst (filter (\<lambda>entry. isExpired currentTime ttlHours (snd entry))
                                  regionCache);
          regionCache1 = fold deleteKey expiredKeys regionCache;
          cacheSize = length regionCache1
      in if cacheSize > 1000 then
           (let sortedEntries = sort_key (\<lambda>entry. timestampOf (snd entry)) regionCache1;
                itemsToRemove = cacheSize - 1000
            in fold deleteKey (map fst (take itemsToRemove sortedEntries)) regionCache1)
         else regionCache1)"

section \<open>geoResolver.js: the lookup\<close>

text \<open>
  The two geolocation services are parameters of one lookup: a request raises (\<open>Threw\<close>)
  or answers with a status (the HTTP status of the primary service, the \<open>status\<close> field of
  the secondary one) and the country code field, if present. \<open>checkedAt\<close> is the clock
  when the cached entry is checked, \<open>writtenAt\<close> the clock when a new entry is stored.
  The result of \<open>getIpRegion\<close> is the returned code, the cache after the call and the
  services that were queried, in order.
\<close>

datatype 'a reply = Threw | Answer 'a "string option"

datatype service = Primary | Secondary

record lookup_env =
  checkedAt :: int
  writtenAt :: int
  primaryReply :: "int reply"
  secondaryReply :: "string reply"

definition toUpperCase :: "string \<Rightarrow> string" where
  "toUpperCase s =
     map (\<lambda>c. if 97 \<le> (of_char c :: nat) \<and> (of_char c :: nat) \<le> 122
              then char_of ((of_char c :: nat) - 32) else c) s"

definition cachedRegion :: "int \<Rightarrow> rat \<Rightarrow> cache_entry option \<Rightarrow> string option" where
  "cachedRegion now ttlHours cachedData =
     (case cachedData of
        None \<Rightarrow> None
      | Some (Legacy code) \<Rightarrow> if code = [] then None else Some code
      | Some (Stamped region timestamp) \<Rightarrow>
          if isCacheValid now (Some timestamp) ttlHours then Some region else None)"

definition primaryCode :: "int reply \<Rightarrow> string option" where
  "primaryCode response =
     (case response of
        Threw \<Rightarrow> None
      | Answer status country_code \<Rightarrow>
          if status = 200 then
            (case map_option toUpperCase country_code of
               None \<Rightarrow> None
             | Some countryCode \<Rightarrow> if countryCode = [] then None else Some countryCode)
          else None)"

definition secondaryCode :: "string reply \<Rightarrow> string option" where
  "secondaryCode response =
     (case response of
        Threw \<Rightarrow> None
      | Answer status countryCode_field \<Rightarrow>
          if status = ''success'' then
            (case map_option toUpperCase countryCode_field of
               None \<Rightarrow> None
             | Some countryCode \<Rightarrow> if countryCode = [] then None else Some countryCode)
          else None)"

definition getIpRegion :: "lookup_env \<Rightarrow> string \<Rightarrow> rat \<Rightarrow> region_cache
                            \<Rightarrow> string \<times> region_cache \<times> service list" where
  "getIpRegion env ip ttlHours regionCache =
     (case cachedRegion (checkedAt env) ttlHours (map_of regionCache ip) of
        Some code \<Rightarrow> (code, regionCache, [])
      | None \<Rightarrow>
          (case primaryCode (primaryReply env) of
             Some countryCode \<Rightarrow>
               (countryCode, setKey ip (Stamped countryCode (writtenAt env)) regionCache,
                [Primary])
           | None \<Rightarrow>
               (case secondaryCode (secondaryReply env) of
                  Some countryCode \<Rightarrow>
                    (countryCode, setKey ip (Stamped countryCode (writtenAt env)) regionCache,
                     [Primary, Secondary])
                | None \<Rightarrow>
                    (''Unknown'', setKey ip (Stamped ''Unknown'' (writtenAt env)) regionCache,
                     [Primary, Secondary]))))"

section \<open>bandwidthTester.js: the percentile filter\<close>

text \<open>
  \<open>Array.prototype.sort\<close> is stable; with the comparator \<open>a.avgDelay - b.avgDelay\<close> it is
  the stable sort by the key \<open>avgDelay\<close>. \<open>slice(0, keepCount)\<close> is \<open>take\<close>.
\<close>

record ip_latency = delay_stats +
  ip :: string

definition latencyFilterIps :: "ip_latency list \<Rightarrow> rat \<Rightarrow> ip_latency list" where
  "latencyFilterIps ipsWithLatency percentage =
     (if length ipsWithLatency = 0 then ipsWithLatency
      else (let sortedIps = sort_key avgDelay ipsWithLatency;
                keepCount = max 1 \<lfloor>of_nat (length sortedIps) * percentage / 100\<rfloor>
            in take (nat keepCount) sortedIps))"

section \<open>Concrete runs\<close>

text \<open>
  The delays of the end-to-end scenario: five attempts on the one port 443, each of them
  connecting.
\<close>

definition scenario_delays :: "nat list" where
  "scenario_delays = [50, 52, 48, 51, 49]"

definition scenario_conn :: "nat \<Rightarrow> tcp_outcomes" where
  "scenario_conn attempt j =
     (if attempt < 5 \<and> j = 0 then Some (scenario_delays ! attempt) else None)"

text \<open>Every download answers 200 and delivers no byte; every connect takes 50 ms, or fails.\<close>

definition stalled_http :: "nat \<Rightarrow> endpoint \<Rightarrow> download" where
  "stalled_http attempt url = Response 200 0 30 10000"

definition quick_conn :: "nat \<Rightarrow> tcp_outcomes" where
  "quick_conn attempt j = Some 50"

definition dead_conn :: "nat \<Rightarrow> tcp_outcomes" where
  "dead_conn attempt j = None"

text \<open>A small cache, two lookup environments and four candidates.\<close>

definition small_cache :: region_cache where
  "small_cache = [(''1.1.1.1'', Legacy ''US''), (''8.8.8.8'', Stamped ''DE'' 500)]"

definition failing_env :: lookup_env where
  "failing_env = \<lparr>checkedAt = 1000, writtenAt = 1200, primaryReply = Threw,
                   secondaryReply = Answer ''fail'' None\<rparr>"

definition later_env :: lookup_env where
  "later_env = \<lparr>checkedAt = 3601200, writtenAt = 3601400, primaryReply = Answer 200 (Some ''us''),
                 secondaryReply = Answer ''success'' (Some ''US'')\<rparr>"

definition four_candidates :: "ip_latency list" where
  "four_candidates =
     [\<lparr>minDelay = 40, avgDelay = 40, stability = 0, ip = ''10.0.0.4''\<rparr>,
      \<lparr>minDelay = 10, avgDelay = 10, stability = 0, ip = ''10.0.0.1''\<rparr>,
      \<lparr>minDelay = 30, avgDelay = 30, stability = 0, ip = ''10.0.0.3''\<rparr>,
      \<lparr>minDelay = 20, avgDelay = 20, stability = 0, ip = ''10.0.0.2''\<rparr>]"

text \<open>A cache of 1200 entries, entry \<open>i\<close> written at instant \<open>i\<close>.\<close>

definition big_cache :: region_cache where
  "big_cache = map (\<lambda>i. (replicate i (CHR ''x''), Stamped ''US'' (int i))) [0..<1200]"

text \<open>
  Two attempts of which the first connects in 50 ms and the second fails; and a network
  on which every connect takes 300 ms.
\<close>

definition mixed_conn :: "nat \<Rightarrow> tcp_outcomes" where
  "mixed_conn attempt j = (if attempt = 0 then Some 50 else None)"


section \<open>Properties\<close>


text \<open>
  C9: with the default TTL of 24 hours, \<open>isCacheValid\<close> holds exactly when the age
  \<open>now - timestamp\<close> is below 24 hours (86400000 ms); at an age of exactly 24 hours it
  is false.
\<close>

theorem isCacheValid_24h:
  "isCacheValid now (Some t) 24 = (now - t < 24 * 3600000)
   \<and> isCacheValid (t + 24 * 3600000) (Some t) 24 = False"
proof -
  have "(of_int (now - t) / (1000 * 60 * 60) < (24::rat)) = (of_int (now - t) < (86400000::rat))"
    by (simp add: field_simps)
  also have "\<dots> = (now - t < 86400000)"
    by (metis of_int_less_iff of_int_numeral)
  finally show ?thesis
    by (simp add: isCacheValid_def)
qed


subsection \<open>Evaluating concrete runs\<close>

lemma isValidIp_example: "isValidIp ''203.0.113.5''"
  by code_simp

lemmas statistics_eval =
  statistics_def average_def variance_def round2_def Math_round_def floor_eq_iff
  power2_eq_square unavailable_def

lemma scenario_samples:
  "pingLoop scenario_conn [443] 5 = ([50, 50, 52, 52, 48, 48, 51, 51, 49, 49], 5)"
  by code_simp

text \<open>
  C7 as stated fails: on the scenario's five delays the pass does not report a stability
  of 1.6.
\<close>

theorem scenario_stability_not_1_6:
  "stability (testIpAvailability scenario_conn ''203.0.113.5'' [443] 5) \<noteq> 16 / 10"
  by (simp add: testIpAvailability_def isValidIp_example scenario_samples statistics_eval)

text \<open>
  C7, amended: the stability pass over the delays 50, 52, 48, 51, 49 reports minDelay 48,
  avgDelay 50 and stability 2, and 2 is the population variance of the five samples.
\<close>

theorem scenario_statistics:
  "testIpAvailability scenario_conn ''203.0.113.5'' [443] 5
     = \<lparr>minDelay = 48, avgDelay = 50, stability = 2, isAvailable = True\<rparr>
   \<and> variance scenario_delays = 2"
  by (simp add: testIpAvailability_def isValidIp_example scenario_samples statistics_eval
      scenario_delays_def)

subsection \<open>The bandwidth probe without a measurement\<close>

lemma tryUrl_nothing: "bytesOf r = 0 \<Longrightarrow> tryUrl r st = Inr st"
  by (cases r; cases st) (simp_all add: tryUrl_def Let_def)

lemma urlLoop_nothing:
  "\<forall>url\<in>set urls. bytesOf (http url) = 0 \<Longrightarrow> urlLoop http urls st = Inr st"
  by (induction urls) (simp_all add: tryUrl_nothing)

lemma attemptLoop_nothing:
  "\<forall>a\<in>set as. \<forall>url\<in>set testUrls. bytesOf (http a url) = 0
   \<Longrightarrow> attemptLoop http as st = Inr st"
  by (induction as) (simp_all add: urlLoop_nothing)

lemma stalled_attemptLoop: "attemptLoop stalled_http [0..<3] (0, 0) = Inr (0, 0)"
  by (rule attemptLoop_nothing) (simp add: stalled_http_def)

text \<open>
  C3 as stated fails: when no download delivers a byte (\<open>stalled_http\<close> is the same
  response for every attempt and endpoint) and the address answers on port 443 in 50 ms,
  \<open>testIpBandwidth\<close> reports the address as fast.
\<close>

theorem zero_bytes_reachable_is_fast:
  "bytesOf (stalled_http 0 Cloudflare) = 0
   \<and> testIpBandwidth stalled_http quick_conn ''203.0.113.5'' 3
       = \<lparr>isFast = True, bandwidth = 0, latency = 50\<rparr>"
proof
  show "bytesOf (stalled_http 0 Cloudflare) = 0"
    by (simp add: stalled_http_def)
  have p: "pingLoop quick_conn [443] (Suc 0) = ([50, 50], 1)"
    by code_simp
  show "testIpBandwidth stalled_http quick_conn ''203.0.113.5'' 3
       = \<lparr>isFast = True, bandwidth = 0, latency = 50\<rparr>"
    by (simp add: testIpBandwidth_def testIpAvailability_def isValidIp_example
        stalled_attemptLoop p statistics_eval)
qed

text \<open>
  C3, amended: when every download of the run delivers 0 bytes, \<open>testIpBandwidth\<close>
  reports bandwidth 0 and falls back to the stability pass with one attempt on port 443:
  if that pass finds the address available, the result is fast with the pass's minDelay as
  latency; otherwise it is not fast, with zero bandwidth and zero latency.
\<close>

theorem bandwidth_fallback:
  assumes "\<forall>a<testCount. \<forall>url\<in>set testUrls. bytesOf (http a url) = 0"
  shows "testIpBandwidth http conn addr testCount =
           (let r = testIpAvailability conn addr [443] 1
            in if isAvailable r then \<lparr>isFast = True, bandwidth = 0, latency = minDelay r\<rparr>
               else \<lparr>isFast = False, bandwidth = 0, latency = 0\<rparr>)"
proof -
  from assms have "attemptLoop http [0..<testCount] (0, 0) = Inr (0, 0)"
    by (intro attemptLoop_nothing) simp
  then show ?thesis
    by (simp add: testIpBandwidth_def testIpAvailability_def unavailable_def Let_def)
qed

theorem bandwidth_fallback_witness:
  "(\<forall>a url. bytesOf (stalled_http a url) = 0)
   \<and> testIpBandwidth stalled_http dead_conn ''203.0.113.5'' 3
       = \<lparr>isFast = False, bandwidth = 0, latency = 0\<rparr>"
proof -
  have h: "\<forall>a<3. \<forall>url\<in>set testUrls. bytesOf (stalled_http a url) = 0"
    by (simp add: stalled_http_def)
  have p: "pingLoop dead_conn [443] (Suc 0) = ([999], 0)"
    by code_simp
  have z: "\<forall>a url. bytesOf (stalled_http a url) = 0"
    by (simp add: stalled_http_def)
  show ?thesis
    using z bandwidth_fallback [OF h, of dead_conn "''203.0.113.5''"]
    by (simp add: testIpAvailability_def isValidIp_example p statistics_eval)
qed

subsection \<open>The lookup and its cache\<close>

lemma map_of_setKey: "map_of (setKey key data regionCache) key = Some data"
  by (induction regionCache) auto

text \<open>
  C10: an address whose cache entry is a plain-string country code gets that string back
  at once: whatever the TTL and the clock, the cache is left as it is and no service is
  queried.
\<close>

theorem legacy_entry_returned:
  assumes "map_of regionCache addr = Some (Legacy code)" and "code \<noteq> []"
  shows "getIpRegion env addr ttlHours regionCache = (code, regionCache, [])"
  using assms by (simp add: getIpRegion_def cachedRegion_def)

theorem legacy_entry_returned_witness:
  "getIpRegion later_env ''1.1.1.1'' 0 small_cache = (''US'', small_cache, [])"
proof -
  have h: "map_of small_cache ''1.1.1.1'' = Some (Legacy ''US'')"
    by (simp add: small_cache_def)
  show ?thesis
    using legacy_entry_returned [OF h, of later_env 0] by simp
qed

text \<open>
  C5: when the lookup reaches the services and both fail, \<open>getIpRegion\<close> returns
  \<open>Unknown\<close> and stores \<open>Unknown\<close> with the current time under the address; a later
  lookup of the address, as long as that timestamp is within the TTL, returns
  \<open>Unknown\<close> from the cache and queries no service. The same holds for every
  timestamped entry within the TTL.
\<close>

theorem unknown_is_cached:
  assumes miss: "cachedRegion (checkedAt env) ttlHours (map_of regionCache addr) = None"
    and prim: "primaryCode (primaryReply env) = None"
    and sec: "secondaryCode (secondaryReply env) = None"
  shows "getIpRegion env addr ttlHours regionCache
           = (''Unknown'', setKey addr (Stamped ''Unknown'' (writtenAt env)) regionCache,
              [Primary, Secondary])
       \<and> map_of (setKey addr (Stamped ''Unknown'' (writtenAt env)) regionCache) addr
           = Some (Stamped ''Unknown'' (writtenAt env))
       \<and> (\<forall>env' ttlHours'.
            isCacheValid (checkedAt env') (Some (writtenAt env)) ttlHours' \<longrightarrow>
            getIpRegion env' addr ttlHours'
                (setKey addr (Stamped ''Unknown'' (writtenAt env)) regionCache)
              = (''Unknown'', setKey addr (Stamped ''Unknown'' (writtenAt env)) regionCache, []))
       \<and> (\<forall>env' ttlHours' cache' region timestamp.
            map_of cache' addr = Some (Stamped region timestamp) \<longrightarrow>
            isCacheValid (checkedAt env') (Some timestamp) ttlHours' \<longrightarrow>
            getIpRegion env' addr ttlHours' cache' = (region, cache', []))"
  using assms by (simp add: getIpRegion_def cachedRegion_def map_of_setKey)

theorem unknown_is_cached_witness:
  "getIpRegion failing_env ''203.0.113.5'' 168 small_cache
     = (''Unknown'', small_cache @ [(''203.0.113.5'', Stamped ''Unknown'' 1200)],
        [Primary, Secondary])
   \<and> getIpRegion later_env ''203.0.113.5'' 168
        (small_cache @ [(''203.0.113.5'', Stamped ''Unknown'' 1200)])
     = (''Unknown'', small_cache @ [(''203.0.113.5'', Stamped ''Unknown'' 1200)], [])"
proof -
  have miss: "cachedRegion (checkedAt failing_env) 168 (map_of small_cache ''203.0.113.5'') = None"
    by (simp add: small_cache_def cachedRegion_def)
  have prim: "primaryCode (primaryReply failing_env) = None"
    by (simp add: failing_env_def primaryCode_def)
  have sec: "secondaryCode (secondaryReply failing_env) = None"
    by (simp add: failing_env_def secondaryCode_def)
  have upd: "setKey ''203.0.113.5'' (Stamped ''Unknown'' (writtenAt failing_env)) small_cache
      = small_cache @ [(''203.0.113.5'', Stamped ''Unknown'' 1200)]"
    by (simp add: small_cache_def failing_env_def)
  have fresh: "isCacheValid (checkedAt later_env) (Some (writtenAt failing_env)) 168"
    by (simp add: isCacheValid_def later_env_def failing_env_def)
  from unknown_is_cached [OF miss prim sec] fresh show ?thesis
    unfolding upd by blast
qed

subsection \<open>The percentile filter\<close>

text \<open>
  C2, amended: for a non-empty candidate list of length n, \<open>latencyFilterIps\<close> returns
  the first \<open>max 1 \<lfloor>n * pct / 100\<rfloor>\<close> entries (all n when that number exceeds n) of
  the candidates sorted ascending by average delay: the result followed by the dropped
  entries is the stable sort of the input.
\<close>

theorem latencyFilterIps_prefix_of_sort:
  assumes "ipsWithLatency \<noteq> []"
  shows "\<exists>dropped.
      latencyFilterIps ipsWithLatency percentage @ dropped = sort_key avgDelay ipsWithLatency
    \<and> mset (latencyFilterIps ipsWithLatency percentage @ dropped) = mset ipsWithLatency
    \<and> sorted (map avgDelay (latencyFilterIps ipsWithLatency percentage @ dropped))
    \<and> length (latencyFilterIps ipsWithLatency percentage)
        = min (length ipsWithLatency)
              (nat (max 1 \<lfloor>of_nat (length ipsWithLatency) * percentage / 100\<rfloor>))"
proof -
  let ?k = "nat (max 1 \<lfloor>of_nat (length ipsWithLatency) * percentage / 100\<rfloor>)"
  let ?s = "sort_key avgDelay ipsWithLatency"
  from assms have eq: "latencyFilterIps ipsWithLatency percentage = take ?k ?s"
    by (simp add: latencyFilterIps_def Let_def)
  have "take ?k ?s @ drop ?k ?s = ?s" by simp
  moreover have "mset ?s = mset ipsWithLatency" by simp
  moreover have "sorted (map avgDelay ?s)" by (rule sorted_sort_key)
  moreover have "length (take ?k ?s) = min (length ipsWithLatency) ?k" by simp
  ultimately show ?thesis unfolding eq by metis
qed

theorem latencyFilterIps_prefix_of_sort_witness:
  "length (latencyFilterIps four_candidates 50) = 2"
proof -
  have h: "four_candidates \<noteq> []" by (simp add: four_candidates_def)
  have n: "length four_candidates = 4" by (simp add: four_candidates_def)
  from latencyFilterIps_prefix_of_sort [OF h, of 50] show ?thesis
    unfolding n by (auto simp: floor_eq_iff)
qed

text \<open>
  C2 as stated fails: of four candidates at 30 percent, one is kept, and the ceiling of
  \<open>4 * 30 / 100\<close> is 2.
\<close>

theorem latencyFilterIps_not_ceiling:
  "latencyFilterIps four_candidates 30
     = [\<lparr>minDelay = 10, avgDelay = 10, stability = 0, ip = ''10.0.0.1''\<rparr>]
   \<and> \<lceil>of_nat (length four_candidates) * 30 / 100 :: rat\<rceil> = 2"
  by (simp add: latencyFilterIps_def four_candidates_def floor_eq_iff ceiling_eq_iff)

subsection \<open>Cache cleanup\<close>

lemma fold_deleteKey:
  "fold deleteKey keys regionCache = filter (\<lambda>entry. fst entry \<notin> set keys) regionCache"
proof (induction keys arbitrary: regionCache)
  case Nil
  then show ?case by simp
next
  case (Cons key keys)
  have "fold deleteKey (key # keys) regionCache
          = filter (\<lambda>entry. fst entry \<notin> set keys) (deleteKey key regionCache)"
    by (simp add: Cons.IH)
  also have "\<dots> = filter (\<lambda>entry. fst entry \<notin> set (key # keys)) regionCache"
    by (simp add: deleteKey_def conj_commute)
  finally show ?case .
qed

lemma nothing_expired:
  assumes "\<forall>entry\<in>set regionCache. \<not> isExpired currentTime ttlHours (snd entry)"
  shows "filter (\<lambda>entry. isExpired currentTime ttlHours (snd entry)) regionCache = []"
  using assms by (simp add: filter_empty_conv)

lemma cleanExpiredCache_over_cap:
  assumes fresh: "\<forall>entry\<in>set regionCache. \<not> isExpired currentTime ttlHours (snd entry)"
    and big: "length regionCache > 1000"
  shows "cleanExpiredCache currentTime ttlHours regionCache =
           filter (\<lambda>entry. fst entry \<notin> fst ` set (take (length regionCache - 1000)
                      (sort_key (\<lambda>entry. timestampOf (snd entry)) regionCache)))
             regionCache"
  using big
  by (simp add: cleanExpiredCache_def nothing_expired [OF fresh] fold_deleteKey Let_def)

lemma evicted_prefix:
  assumes keys: "distinct (map fst regionCache)"
    and sub: "set evicted \<subseteq> set regionCache"
  shows "filter (\<lambda>entry. fst entry \<notin> fst ` set evicted) regionCache
           = filter (\<lambda>entry. entry \<notin> set evicted) regionCache"
proof (rule filter_cong [OF refl])
  fix entry assume mem: "entry \<in> set regionCache"
  from keys have inj: "inj_on fst (set regionCache)"
    by (simp add: distinct_map)
  show "(fst entry \<notin> fst ` set evicted) = (entry \<notin> set evicted)"
  proof
    assume "fst entry \<notin> fst ` set evicted"
    then show "entry \<notin> set evicted" by blast
  next
    assume out: "entry \<notin> set evicted"
    show "fst entry \<notin> fst ` set evicted"
    proof
      assume "fst entry \<in> fst ` set evicted"
      then obtain e where e: "e \<in> set evicted" "fst e = fst entry" by auto
      with sub mem inj have "e = entry" by (auto dest: inj_onD)
      with e out show False by simp
    qed
  qed
qed

lemma keep_most_recent:
  fixes regionCache :: region_cache
  assumes keys: "distinct (map fst regionCache)"
    and stamps: "distinct (map (\<lambda>entry. timestampOf (snd entry)) regionCache)"
    and fresh: "\<forall>entry\<in>set regionCache. \<not> isExpired currentTime ttlHours (snd entry)"
    and big: "length regionCache > 1000"
  shows "length (cleanExpiredCache currentTime ttlHours regionCache) = 1000"
    and "set (cleanExpiredCache currentTime ttlHours regionCache) \<subseteq> set regionCache"
    and "distinct (map fst (cleanExpiredCache currentTime ttlHours regionCache))"
    and "\<forall>kept\<in>set (cleanExpiredCache currentTime ttlHours regionCache).
         \<forall>evicted\<in>set regionCache - set (cleanExpiredCache currentTime ttlHours regionCache).
           timestampOf (snd evicted) < timestampOf (snd kept)"
proof -
  let ?f = "\<lambda>entry::string \<times> cache_entry. timestampOf (snd entry)"
  let ?s = "sort_key ?f regionCache"
  let ?k = "length regionCache - 1000"
  let ?ev = "take ?k ?s"
  let ?res = "cleanExpiredCache currentTime ttlHours regionCache"
  have sub: "set ?ev \<subseteq> set regionCache"
    using set_take_subset [of ?k ?s] by simp
  have res: "?res = filter (\<lambda>entry. entry \<notin> set ?ev) regionCache"
    using cleanExpiredCache_over_cap [OF fresh big] evicted_prefix [OF keys sub] by simp
  from keys have d: "distinct regionCache" by (rule distinct_map [THEN iffD1, THEN conjunct1])
  then have ds: "distinct ?s" by (simp add: distinct_sort)
  have card_ev: "card (set ?ev) = ?k"
    using ds big by (simp add: distinct_card)
  have "length ?res = card (set regionCache - set ?ev)"
    unfolding res using d by (simp add: distinct_length_filter Diff_eq Int_commute Collect_neg_eq set_diff_eq)
  also have "\<dots> = card (set regionCache) - card (set ?ev)"
    using sub by (simp add: card_Diff_subset)
  also have "\<dots> = 1000"
    using big d by (simp add: card_ev distinct_card)
  finally show "length ?res = 1000" .
  show "set ?res \<subseteq> set regionCache" unfolding res by auto
  show "distinct (map fst ?res)" unfolding res using keys by (rule distinct_map_filter)
  have "map ?f ?s = map ?f (take ?k ?s) @ map ?f (drop ?k ?s)"
    by (simp flip: map_append)
  moreover have "sorted (map ?f ?s)"
    by (rule sorted_sort_key)
  ultimately have "sorted (map ?f (take ?k ?s) @ map ?f (drop ?k ?s))"
    by simp
  then have le: "\<forall>x\<in>set (take ?k ?s). \<forall>y\<in>set (drop ?k ?s). ?f x \<le> ?f y"
    by (auto simp: sorted_append)
  from stamps have inj: "inj_on ?f (set regionCache)" by (simp add: distinct_map)
  show "\<forall>kept\<in>set ?res. \<forall>evicted\<in>set regionCache - set ?res. ?f evicted < ?f kept"
  proof (intro ballI)
    fix kept evicted
    assume k: "kept \<in> set ?res" and e: "evicted \<in> set regionCache - set ?res"
    from k have k1: "kept \<in> set regionCache" "kept \<notin> set ?ev" unfolding res by auto
    from e have e1: "evicted \<in> set regionCache" "evicted \<in> set ?ev" unfolding res by auto
    have "kept \<in> set (take ?k ?s @ drop ?k ?s)" using k1 by simp
    with k1 have "kept \<in> set (drop ?k ?s)" unfolding set_append by blast
    with le e1 have "?f evicted \<le> ?f kept" by blast
    moreover from k1 e1 have "kept \<noteq> evicted" by auto
    with inj k1 e1 have "?f evicted \<noteq> ?f kept" by (auto dest: inj_onD)
    ultimately show "?f evicted < ?f kept" by simp
  qed
qed

text \<open>
  C6: on a cache of 1200 entries with pairwise distinct timestamps, none of them expired,
  \<open>cleanExpiredCache\<close> leaves exactly 1000 entries, all of them entries of the cache
  under their own keys, and every entry it keeps is more recent than every entry it
  evicts: the entries kept are the 1000 most recent ones.
\<close>

theorem cleanup_keeps_most_recent_1000:
  fixes regionCache :: region_cache
  assumes size: "length regionCache = 1200"
    and keys: "distinct (map fst regionCache)"
    and stamps: "distinct (map (\<lambda>entry. timestampOf (snd entry)) regionCache)"
    and fresh: "\<forall>entry\<in>set regionCache. \<not> isExpired currentTime ttlHours (snd entry)"
  shows "length (cleanExpiredCache currentTime ttlHours regionCache) = 1000
    \<and> set (cleanExpiredCache currentTime ttlHours regionCache) \<subseteq> set regionCache
    \<and> distinct (map fst (cleanExpiredCache currentTime ttlHours regionCache))
    \<and> (\<forall>kept\<in>set (cleanExpiredCache currentTime ttlHours regionCache).
         \<forall>evicted\<in>set regionCache - set (cleanExpiredCache currentTime ttlHours regionCache).
           timestampOf (snd evicted) < timestampOf (snd kept))"
proof -
  from size have big: "length regionCache > 1000" by simp
  from keep_most_recent [OF keys stamps fresh big] show ?thesis by blast
qed

lemma big_cache_keys: "distinct (map fst big_cache)"
  by (simp add: big_cache_def distinct_map comp_def inj_on_def)

lemma big_cache_stamps: "distinct (map (\<lambda>entry. timestampOf (snd entry)) big_cache)"
  by (simp add: big_cache_def distinct_map comp_def inj_on_def)

lemma big_cache_fresh: "\<forall>entry\<in>set big_cache. \<not> isExpired 1200 168 (snd entry)"
proof
  fix entry assume "entry \<in> set big_cache"
  then obtain i where e: "snd entry = Stamped ''US'' (int i)"
    by (auto simp: big_cache_def)
  have "of_int (1200 - int i) \<le> (1200 :: rat)"
    by (simp add: of_int_le_numeral_iff [where 'a = rat, symmetric] del: of_int_le_numeral_iff)
  then show "\<not> isExpired 1200 168 (snd entry)"
    by (simp add: e isExpired_def field_simps)
qed

theorem cleanup_keeps_most_recent_1000_witness:
  "length (cleanExpiredCache 1200 168 big_cache) = 1000
   \<and> set (cleanExpiredCache 1200 168 big_cache) \<subseteq> set big_cache"
proof -
  have size: "length big_cache = 1200" by (simp add: big_cache_def)
  from cleanup_keeps_most_recent_1000
         [OF size big_cache_keys big_cache_stamps big_cache_fresh]
  show ?thesis by blast
qed

subsection \<open>The stability pass\<close>

lemma portLoop_shift:
  "portLoop conn (Suc j) ports st = portLoop (\<lambda>i. conn (Suc i)) j ports st"
proof (induction ports arbitrary: j st)
  case Nil
  then show ?case by simp
next
  case (Cons port ports)
  obtain m ds n where st: "st = (m, ds, n)" by (cases st) auto
  show ?case unfolding st by (simp add: Cons.IH split: option.split)
qed

lemma portLoop_state:
  "portLoop conn j ports (m, ds, n) =
     (case portLoop conn j ports (m, [], 0) of (m', ps, k) \<Rightarrow> (m', ds @ ps, n + k))"
proof (induction ports arbitrary: j m)
  case Nil
  then show ?case by simp
next
  case (Cons port ports)
  show ?case
    by (simp add: Cons.IH [of "Suc j"] split: option.split)
qed

lemma connects_Cons:
  "connects conn (port # ports) d =
     (validPort port \<and> conn 0 = Some d \<or> connects (\<lambda>i. conn (Suc i)) ports d)"
  by (simp add: connects_def Ex_less_Suc2)

lemma attemptFails_Cons:
  "attemptFails conn (port # ports) =
     ((validPort port \<longrightarrow> conn 0 = None) \<and> attemptFails (\<lambda>i. conn (Suc i)) ports)"
  by (simp add: attemptFails_def All_less_Suc2)

lemma attemptGood_Cons:
  "attemptGood conn (port # ports) =
     (validPort port \<and> (\<exists>d<200. conn 0 = Some d) \<or> attemptGood (\<lambda>i. conn (Suc i)) ports)"
  by (simp add: attemptGood_def Ex_less_Suc2)

lemma attemptFails_iff: "attemptFails conn ports = (\<forall>d. \<not> connects conn ports d)"
  unfolding attemptFails_def connects_def by (metis not_Some_eq)

lemma min_enat_finite: "\<exists>i. min m (enat d) = enat i"
  by (cases m) (simp_all add: min_def)

lemma attemptGood_iff: "attemptGood conn ports = (\<exists>d<200. connects conn ports d)"
  by (auto simp: attemptGood_def connects_def)

lemma portLoop_min_inf:
  "fst (portLoop conn 0 ports (m, [], 0)) = \<infinity> \<longleftrightarrow> m = \<infinity> \<and> attemptFails conn ports"
proof (induction ports arbitrary: conn m)
  case Nil
  then show ?case by (simp add: attemptFails_def)
next
  case (Cons port ports)
  show ?case
  proof (cases "validPort port")
    case False
    with Cons.IH [of "\<lambda>i. conn (Suc i)" m] show ?thesis
      by (simp add: attemptFails_Cons portLoop_shift validPort_def)
  next
    case True
    show ?thesis
    proof (cases "conn 0")
      case None
      with True Cons.IH [of "\<lambda>i. conn (Suc i)" m] show ?thesis
        by (simp add: attemptFails_Cons portLoop_shift validPort_def)
    next
      case (Some d)
      have fin: "min m (enat d) \<noteq> \<infinity>"
        using min_enat_finite [of m d] by auto
      with Cons.IH [of "\<lambda>i. conn (Suc i)" "min m (enat d)"]
      have tail: "fst (portLoop (\<lambda>i. conn (Suc i)) 0 ports (min m (enat d), [], 0)) \<noteq> \<infinity>"
        by blast
      have lhs: "fst (portLoop conn 0 (port # ports) (m, [], 0)) \<noteq> \<infinity>"
        using True Some fin tail
        by (simp add: portLoop_shift validPort_def del: not_infinity_eq)
      have rhs: "\<not> attemptFails conn (port # ports)"
        using True Some by (simp add: attemptFails_Cons)
      from lhs rhs show ?thesis by blast
    qed
  qed
qed


lemma portLoop_pushes:
  "portLoop conn 0 ports (m, [], 0) = (m', ps, k) \<Longrightarrow>
     k = length ps \<and> (\<forall>d\<in>set ps. d < 200 \<and> connects conn ports d)
     \<and> (ps \<noteq> [] \<longleftrightarrow> attemptGood conn ports) \<and> length ps \<le> 1"
proof (induction ports arbitrary: conn m)
  case Nil
  then show ?case by (simp add: attemptGood_def)
next
  case (Cons port ports)
  show ?case
  proof (cases "validPort port")
    case False
    with Cons.prems Cons.IH [of "\<lambda>i. conn (Suc i)" m] show ?thesis
      by (auto simp: connects_Cons attemptGood_Cons portLoop_shift validPort_def)
  next
    case True
    show ?thesis
    proof (cases "conn 0")
      case None
      with True Cons.prems Cons.IH [of "\<lambda>i. conn (Suc i)" m] show ?thesis
        by (auto simp: connects_Cons attemptGood_Cons portLoop_shift validPort_def)
    next
      case (Some d)
      show ?thesis
      proof (cases "d < 200")
        case good: True
        with True Some Cons.prems show ?thesis
          by (auto simp: connects_Cons attemptGood_Cons validPort_def)
      next
        case slow: False
        with True Some Cons.prems Cons.IH [of "\<lambda>i. conn (Suc i)" "min m (enat d)"]
        show ?thesis
          by (auto simp: connects_Cons attemptGood_Cons portLoop_shift validPort_def)
      qed
    qed
  qed
qed

lemma pingAttempt_append:
  "pingAttempt conn ports (ds, n) = (ds @ pushed conn ports, n + counted conn ports)"
proof -
  obtain m' ps k where r: "portLoop conn 0 ports (\<infinity>, [], 0) = (m', ps, k)"
    by (cases "portLoop conn 0 ports (\<infinity>, [], 0)") auto
  then have "portLoop conn 0 ports (\<infinity>, ds, n) = (m', ds @ ps, n + k)"
    using portLoop_state [of conn 0 ports \<infinity> ds n] by simp
  with r show ?thesis
    by (cases m') (simp_all add: pingAttempt_def)
qed

lemma pingAttempt_fails:
  assumes "attemptFails conn ports"
  shows "pingAttempt conn ports ([], 0) = ([999], 0)"
proof -
  obtain m' ps k where r: "portLoop conn 0 ports (\<infinity>, [], 0) = (m', ps, k)"
    by (cases "portLoop conn 0 ports (\<infinity>, [], 0)") auto
  from assms have "\<not> attemptGood conn ports"
    by (auto simp: attemptFails_iff attemptGood_iff)
  with portLoop_pushes [OF r] have ps: "ps = []" "k = 0" by auto
  from assms portLoop_min_inf [of conn ports \<infinity>] r have "m' = \<infinity>" by simp
  with r ps show ?thesis by (simp add: pingAttempt_def)
qed




lemma fold_pingAttempt:
  "fold (\<lambda>attempt st. pingAttempt (conn attempt) ports st) as (ds, n)
     = (ds @ concat (map (\<lambda>a. pushed (conn a) ports) as),
        n + sum_list (map (\<lambda>a. counted (conn a) ports) as))"
proof (induction as arbitrary: ds n)
  case Nil
  then show ?case by simp
next
  case (Cons a as)
  show ?case
    by (simp add: pingAttempt_append [of "conn a" ports ds n] Cons.IH)
qed

lemma pingLoop_eq:
  "pingLoop conn ports pingCount
     = (concat (map (\<lambda>a. pushed (conn a) ports) [0..<pingCount]),
        sum_list (map (\<lambda>a. counted (conn a) ports) [0..<pingCount]))"
  unfolding pingLoop_def using fold_pingAttempt [of conn ports "[0..<pingCount]" "[]" 0]
  by simp

lemma valid_samples_skip_failures:
  "filter (\<lambda>d. d < 999) (concat (map (\<lambda>a. pushed (conn a) ports) as))
     = filter (\<lambda>d. d < 999)
         (concat (map (\<lambda>a. pushed (conn a) ports)
                    (filter (\<lambda>a. \<not> attemptFails (conn a) ports) as)))"
  by (induction as) (simp_all add: pingAttempt_fails)

lemma successes_skip_failures:
  "sum_list (map (\<lambda>a. counted (conn a) ports) as)
     = sum_list (map (\<lambda>a. counted (conn a) ports)
                   (filter (\<lambda>a. \<not> attemptFails (conn a) ports) as))"
  by (induction as) (simp_all add: pingAttempt_fails)

lemma statistics_valid_only:
  "statistics (ds, n) = statistics (filter (\<lambda>d. d < 999) ds, n)"
  by (simp add: statistics_def Let_def)

lemma pingLoop_reindexed:
  "pingLoop (\<lambda>k. conn (as ! k)) ports (length as)
     = (concat (map (\<lambda>a. pushed (conn a) ports) as),
        sum_list (map (\<lambda>a. counted (conn a) ports) as))"
proof -
  have "map (\<lambda>k. pushed (conn (as ! k)) ports) [0..<length as]
          = map (\<lambda>a. pushed (conn a) ports) (map ((!) as) [0..<length as])"
    by (simp add: comp_def)
  moreover have "map (\<lambda>k. counted (conn (as ! k)) ports) [0..<length as]
          = map (\<lambda>a. counted (conn a) ports) (map ((!) as) [0..<length as])"
    by (simp add: comp_def)
  ultimately show ?thesis
    unfolding pingLoop_eq by (simp only: map_nth)
qed

text \<open>
  C1, amended: an attempt that cannot connect on any valid port adds the sentinel 999 to
  \<open>allDelays\<close> and leaves \<open>successCount\<close> as it is; the samples from 999 on are removed
  before the statistics are computed, so the failed attempts do not change the result:
  it is the result of the run of the connected attempts alone.
\<close>

theorem failed_attempts_leave_statistics:
  "(\<forall>a ds n. attemptFails (conn a) testPorts \<longrightarrow>
       pingAttempt (conn a) testPorts (ds, n) = (ds @ [999], n))
   \<and> testIpAvailability conn addr testPorts pingCount
       = testIpAvailability (\<lambda>k. conn (connectedAttempts conn testPorts pingCount ! k)) addr
           testPorts (length (connectedAttempts conn testPorts pingCount))"
proof
  show "\<forall>a ds n. attemptFails (conn a) testPorts \<longrightarrow>
       pingAttempt (conn a) testPorts (ds, n) = (ds @ [999], n)"
  proof (intro allI impI)
    fix a ds n
    assume "attemptFails (conn a) testPorts"
    then have "pingAttempt (conn a) testPorts ([], 0) = ([999], 0)"
      by (rule pingAttempt_fails)
    with pingAttempt_append [of "conn a" testPorts ds n]
    show "pingAttempt (conn a) testPorts (ds, n) = (ds @ [999], n)"
      by simp
  qed
  let ?cs = "connectedAttempts conn testPorts pingCount"
  let ?D = "concat (map (\<lambda>a. pushed (conn a) testPorts) [0..<pingCount])"
  let ?N = "sum_list (map (\<lambda>a. counted (conn a) testPorts) [0..<pingCount])"
  let ?D' = "concat (map (\<lambda>a. pushed (conn a) testPorts) ?cs)"
  let ?N' = "sum_list (map (\<lambda>a. counted (conn a) testPorts) ?cs)"
  have run: "pingLoop conn testPorts pingCount = (?D, ?N)"
    by (rule pingLoop_eq)
  have run': "pingLoop (\<lambda>k. conn (?cs ! k)) testPorts (length ?cs) = (?D', ?N')"
    by (rule pingLoop_reindexed)
  have samples: "filter (\<lambda>d. d < 999) ?D = filter (\<lambda>d. d < 999) ?D'"
    unfolding connectedAttempts_def by (rule valid_samples_skip_failures)
  have count: "?N = ?N'"
    unfolding connectedAttempts_def by (rule successes_skip_failures)
  have "statistics (?D, ?N) = statistics (filter (\<lambda>d. d < 999) ?D, ?N)"
    by (rule statistics_valid_only)
  also have "\<dots> = statistics (filter (\<lambda>d. d < 999) ?D', ?N')"
    by (simp only: samples count)
  also have "\<dots> = statistics (?D', ?N')"
    by (rule statistics_valid_only [symmetric])
  finally have "statistics (pingLoop conn testPorts pingCount)
          = statistics (pingLoop (\<lambda>k. conn (?cs ! k)) testPorts (length ?cs))"
    by (simp only: run run')
  then show "testIpAvailability conn addr testPorts pingCount
       = testIpAvailability (\<lambda>k. conn (?cs ! k)) addr testPorts (length ?cs)"
    by (simp add: testIpAvailability_def)
qed

lemma mixed_samples: "pingLoop mixed_conn [443] 2 = ([50, 50, 999], 1)"
  by code_simp

text \<open>
  C1 as stated fails: in a run of one good attempt (50 ms) and one failed attempt the
  sentinel 999 is recorded, and yet the reported avgDelay and stability are those of the
  successful sample alone.
\<close>

theorem sentinel_filtered_before_statistics:
  "attemptGood (mixed_conn 0) [443] \<and> attemptFails (mixed_conn 1) [443]
   \<and> fst (pingLoop mixed_conn [443] 2) = [50, 50, 999]
   \<and> avgDelay (testIpAvailability mixed_conn ''203.0.113.5'' [443] 2) = round2 (average [50])
   \<and> stability (testIpAvailability mixed_conn ''203.0.113.5'' [443] 2) = round2 (variance [50])"
  by (simp add: attemptGood_def attemptFails_def validPort_def mixed_conn_def [abs_def]
      testIpAvailability_def isValidIp_example mixed_samples [unfolded mixed_conn_def [abs_def]]
      statistics_eval)

text \<open>The run of two attempts and the run of its one connected attempt.\<close>

theorem failed_attempts_leave_statistics_witness:
  "connectedAttempts mixed_conn [443] 2 = [0]
   \<and> pingAttempt (mixed_conn 1) [443] ([50, 50], 1) = ([50, 50, 999], 1)
   \<and> testIpAvailability mixed_conn ''203.0.113.5'' [443] 2
       = testIpAvailability (\<lambda>k. mixed_conn ([0] ! k)) ''203.0.113.5'' [443] 1"
proof -
  have f: "attemptFails (mixed_conn 1) [443]"
    by (simp add: attemptFails_def mixed_conn_def)
  have g: "\<not> attemptFails (mixed_conn 0) [443]"
    by (simp add: attemptFails_def mixed_conn_def validPort_def)
  have "[0..<2] = [0, Suc 0]"
    by (simp add: upt_rec)
  with f g have cs: "connectedAttempts mixed_conn [443] 2 = [0]"
    by (simp add: connectedAttempts_def)
  from failed_attempts_leave_statistics [of mixed_conn "[443]" "''203.0.113.5''" 2] f
  show ?thesis unfolding cs by simp
qed






end
